theory Spec2Isabelle
  imports Main "HOL-Library.AList" "HOL-Library.Multiset"
begin

section \<open>Scheduler side: the session queue of the controller\<close>

text \<open>
  The queue functions are methods of \<open>Controller\<close> (package \<open>controller\<close>):
  \<open>ShiftSessionQueue\<close>, \<open>PushSessionQueue\<close> and \<open>loadSessionQueues\<close>. Each takes the
  mutex \<open>sessionQueueMtx\<close> for its whole body, so each is modelled as one atomic
  transition on the controller state. The queue holds pointers to sessions; the model
  takes every entry to be a session value (a non-nil pointer).

  The declarations of package \<open>types\<close> are not among the sources. The records below hold
  the fields that the queue functions read.
\<close>

text \<open>
  Modelled from the spec: the declaration of the creator type is missing; the data model
  gives an interaction's creator as one of User and System. The source names the
  constant \<open>types.CreatorTypeSystem\<close>.
\<close>

datatype CreatorType = CreatorTypeUser | CreatorTypeSystem

record Interaction =
  Creator :: CreatorType
  Finished :: bool

text \<open>
  Mode, type and model name are strings in the source (\<open>session.Mode == "Create"\<close>,
  \<open>filter.Mode != ""\<close>). \<open>LoraDir\<close> is the adapter directory of a session
  (\<open>InitialSession.LoraDir\<close> in the runner).
\<close>

record Session =
  ID :: string
  Mode :: string
  Type :: string
  ModelName :: string
  LoraDir :: string
  Interactions :: "Interaction list"

text \<open>
  Modelled from the spec: the declaration of \<open>types.SessionFilter\<close> is missing; the data
  model gives its fields as mode, type, model name and adapter directory.
\<close>

record SessionFilter =
  Filter_Mode :: string
  Filter_Type :: string
  Filter_ModelName :: string
  Filter_LoraDir :: string

record Controller =
  sessionQueue :: "Session list"

subsection \<open>PushSessionQueue\<close>

text \<open>
  The loop of \<open>PushSessionQueue\<close> over the old queue: \<open>newQueue\<close> and the flag
  \<open>existing\<close> are the loop's two variables.
\<close>

fun push_loop :: "Session \<Rightarrow> Session list \<Rightarrow> Session list \<Rightarrow> bool \<Rightarrow> Session list \<times> bool" where
  "push_loop session [] newQueue existing = (newQueue, existing)"
| "push_loop session (existingSession # rest) newQueue existing =
     (if ID existingSession = ID session
      then push_loop session rest (newQueue @ [session]) True
      else push_loop session rest (newQueue @ [existingSession]) existing)"

definition PushSessionQueue :: "Controller \<Rightarrow> Session \<Rightarrow> Controller" where
  "PushSessionQueue c session =
     (case push_loop session (sessionQueue c) [] False of
        (newQueue, existing) \<Rightarrow>
          c\<lparr>sessionQueue := (if \<not> existing then newQueue @ [session] else newQueue)\<rparr>)"

subsection \<open>ShiftSessionQueue\<close>

text \<open>
  The loop of \<open>ShiftSessionQueue\<close>: \<open>before\<close> is \<open>c.sessionQueue[:i]\<close>, the entries
  already passed over. The three tests are the loop's three \<open>continue\<close> statements, in
  the source's order; the adapter directory of the filter is not read. On the first
  entry that passes, the queue becomes
  \<open>append(c.sessionQueue[:i], c.sessionQueue[i+1:]...)\<close> and the entry is returned.
  When the loop ends, the result is \<open>nil\<close> and the queue is as it was. The error
  result of the source is always \<open>nil\<close> and is left out.
\<close>

fun shift_loop :: "SessionFilter \<Rightarrow> Session list \<Rightarrow> Session list \<Rightarrow> Session option \<times> Session list" where
  "shift_loop fltr before [] = (None, before)"
| "shift_loop fltr before (session # rest) =
     (if Filter_Mode fltr \<noteq> [] \<and> Mode session \<noteq> Filter_Mode fltr
        then shift_loop fltr (before @ [session]) rest
      else if Filter_Type fltr \<noteq> [] \<and> Type session \<noteq> Filter_Type fltr
        then shift_loop fltr (before @ [session]) rest
      else if Filter_ModelName fltr \<noteq> [] \<and> ModelName session \<noteq> Filter_ModelName fltr
        then shift_loop fltr (before @ [session]) rest
      else (Some session, before @ rest))"

definition ShiftSessionQueue :: "Controller \<Rightarrow> SessionFilter \<Rightarrow> Session option \<times> Controller" where
  "ShiftSessionQueue c fltr =
     (case shift_loop fltr [] (sessionQueue c) of
        (r, q) \<Rightarrow> (r, c\<lparr>sessionQueue := q\<rparr>))"

text \<open>
  Repeated shifts with one filter, as a worker polling the queue does: the results of
  \<open>n\<close> calls in order, and the controller after the last.
\<close>

fun ShiftTimes :: "nat \<Rightarrow> Controller \<Rightarrow> SessionFilter \<Rightarrow> Session option list \<times> Controller" where
  "ShiftTimes 0 c fltr = ([], c)"
| "ShiftTimes (Suc n) c fltr =
     (case ShiftSessionQueue c fltr of
        (r, c') \<Rightarrow> (case ShiftTimes n c' fltr of (rs, c'') \<Rightarrow> (r # rs, c'')))"

text \<open>
  The sessions that the loop of \<open>ShiftSessionQueue\<close> does not pass over: each of mode,
  type and model name is empty in the filter or equal in the session.
\<close>

definition session_matches :: "SessionFilter \<Rightarrow> Session \<Rightarrow> bool" where
  "session_matches fltr session \<longleftrightarrow>
     (Filter_Mode fltr = [] \<or> Mode session = Filter_Mode fltr) \<and>
     (Filter_Type fltr = [] \<or> Type session = Filter_Type fltr) \<and>
     (Filter_ModelName fltr = [] \<or> ModelName session = Filter_ModelName fltr)"

text \<open>
  The filter predicate in the words of the specification: all four fields, an empty
  field matching any session.
\<close>

definition spec_session_matches :: "SessionFilter \<Rightarrow> Session \<Rightarrow> bool" where
  "spec_session_matches fltr session \<longleftrightarrow>
     (Filter_Mode fltr = [] \<or> Mode session = Filter_Mode fltr) \<and>
     (Filter_Type fltr = [] \<or> Type session = Filter_Type fltr) \<and>
     (Filter_ModelName fltr = [] \<or> ModelName session = Filter_ModelName fltr) \<and>
     (Filter_LoraDir fltr = [] \<or> LoraDir session = Filter_LoraDir fltr)"

subsection \<open>loadSessionQueues\<close>

text \<open>
  The loop of \<open>loadSessionQueues\<close> runs \<open>i\<close> from \<open>len(sessions) - 1\<close> down to \<open>0\<close>;
  the second argument here is \<open>i + 1\<close>. An entry with no interactions is skipped, an
  entry whose last interaction has creator \<open>CreatorTypeSystem\<close> is skipped, any other
  entry is appended.
\<close>

fun load_loop :: "Session list \<Rightarrow> nat \<Rightarrow> Session list \<Rightarrow> Session list" where
  "load_loop sessions 0 sessionQueue' = sessionQueue'"
| "load_loop sessions (Suc i) sessionQueue' =
     (let session = sessions ! i; interactions = Interactions session in
      if interactions = [] then load_loop sessions i sessionQueue'
      else if Creator (last interactions) = CreatorTypeSystem
        then load_loop sessions i sessionQueue'
      else load_loop sessions i (sessionQueue' @ [session]))"

text \<open>
  \<open>st.GetSessions\<close> is the store's answer: an error or the list of sessions. On an error
  the function returns it and the queue is not touched.
\<close>

definition loadSessionQueues :: "Controller \<Rightarrow> string + Session list \<Rightarrow> string + Controller" where
  "loadSessionQueues c getSessions =
     (case getSessions of
        Inl err \<Rightarrow> Inl err
      | Inr sessions \<Rightarrow> Inr (c\<lparr>sessionQueue := load_loop sessions (length sessions) []\<rparr>))"

text \<open>A session awaits a response: it has interactions and the last one is by the User.\<close>

definition awaiting_response :: "Session \<Rightarrow> bool" where
  "awaiting_response session \<longleftrightarrow>
     Interactions session \<noteq> [] \<and> Creator (last (Interactions session)) = CreatorTypeUser"

section \<open>Runner side: the Ollama model instance\<close>

subsection \<open>Requests, responses of the subprocess, frames\<close>

text \<open>
  The request handed to an instance (\<open>types.RunnerLLMInferenceRequest\<close>):
  \<open>Req_Stream\<close> is \<open>Request.Stream\<close> of the chat-completion request it carries.
\<close>

record RunnerLLMInferenceRequest =
  Req_SessionID :: string
  Req_InteractionID :: string
  Req_Owner :: string
  Req_Stream :: bool

text \<open>
  A tool call of the chat-completions client library: its id and the name and
  arguments of its function.
\<close>

record ToolCall =
  ToolCall_ID :: string
  Function_Name :: string
  Function_Arguments :: string

text \<open>One choice of a streamed response: \<open>Choices[k].Delta\<close>.\<close>

record Delta =
  Delta_Content :: string
  Delta_ToolCalls :: "ToolCall list"

text \<open>One choice of a blocking response: \<open>Choices[k].Message\<close>.\<close>

record Message =
  Message_Content :: string
  Message_ToolCalls :: "ToolCall list"
  Message_ToolCallID :: string

record Usage =
  PromptTokens :: int
  CompletionTokens :: int
  TotalTokens :: int
  DurationMs :: int

record ChatCompletionResponse =
  Choices :: "Message list"
  Response_Usage :: Usage

text \<open>
  What the successive calls of \<open>stream.Recv()\<close> return: \<open>io.EOF\<close>, another error, or a
  response with its list of choices, followed by the rest of the stream. A stream that
  never ends is not a value of this type.
\<close>

datatype ChatCompletionStream =
    RecvEOF
  | RecvError string
  | RecvResponse "Delta list" ChatCompletionStream

text \<open>
  What the instance gets from outside while it processes one request: the answer of
  \<open>client.CreateChatCompletionStream\<close> and of \<open>client.CreateChatCompletion\<close> (an error
  string or a value), the milliseconds measured by \<open>time.Since(start)\<close>, and the order
  in which \<open>range\<close> visits the entries of the map \<open>toolCalls\<close>, which Go leaves open.
\<close>

record Client =
  CreateChatCompletionStream :: "string + ChatCompletionStream"
  CreateChatCompletion :: "string + ChatCompletionResponse"
  sinceStartMs :: int
  rangeOrder :: "(string \<times> ToolCall) list \<Rightarrow> (string \<times> ToolCall) list"

datatype WorkerTaskResponseType = WorkerTaskResponseTypeStream | WorkerTaskResponseTypeResult

text \<open>
  A frame: the \<open>types.RunnerTaskResponse\<close> passed to \<open>responseHandler\<close>. A field that a
  struct literal of the source does not set has Go's zero value: the empty string,
  \<open>false\<close>, the empty list, zero.
\<close>

record RunnerTaskResponse =
  Resp_Type :: WorkerTaskResponseType
  Resp_SessionID :: string
  Resp_InteractionID :: string
  Resp_Owner :: string
  Resp_Done :: bool
  Resp_Message :: string
  Resp_Usage :: Usage
  Resp_ToolCalls :: "ToolCall list"
  Resp_ToolCallID :: string
  Resp_Error :: string

definition zeroUsage :: Usage where
  "zeroUsage = \<lparr>PromptTokens = 0, CompletionTokens = 0, TotalTokens = 0, DurationMs = 0\<rparr>"

text \<open>
  How a Go function ends: it returns \<open>nil\<close>, it returns an error (here its message), or
  it panics.
\<close>

datatype outcome = ReturnNil | ReturnError string | Panics

subsection \<open>The three emitters\<close>

text \<open>
  Each of \<open>responseProcessor\<close>, \<open>emitStreamDone\<close> and \<open>errorSession\<close> calls
  \<open>responseHandler\<close> once, with the frame given here; an error of the handler is only
  logged. The trace of a run is the list of these frames in call order. The request is
  never \<open>nil\<close> where \<open>responseProcessor\<close> is called.
\<close>

definition responseProcessor ::
  "RunnerLLMInferenceRequest \<Rightarrow> Usage \<Rightarrow> string \<Rightarrow> ToolCall list \<Rightarrow> string \<Rightarrow> bool \<Rightarrow> RunnerTaskResponse" where
  "responseProcessor req usage content toolCalls toolCallID done =
     \<lparr>Resp_Type = (if done then WorkerTaskResponseTypeResult else WorkerTaskResponseTypeStream),
      Resp_SessionID = Req_SessionID req,
      Resp_InteractionID = Req_InteractionID req,
      Resp_Owner = Req_Owner req,
      Resp_Done = done,
      Resp_Message = content,
      Resp_Usage = usage,
      Resp_ToolCalls = toolCalls,
      Resp_ToolCallID = toolCallID,
      Resp_Error = []\<rparr>"

definition emitStreamDone :: "RunnerLLMInferenceRequest \<Rightarrow> RunnerTaskResponse" where
  "emitStreamDone req =
     \<lparr>Resp_Type = WorkerTaskResponseTypeStream,
      Resp_SessionID = Req_SessionID req,
      Resp_InteractionID = [],
      Resp_Owner = Req_Owner req,
      Resp_Done = True,
      Resp_Message = [],
      Resp_Usage = zeroUsage,
      Resp_ToolCalls = [],
      Resp_ToolCallID = [],
      Resp_Error = []\<rparr>"

definition errorSession :: "RunnerLLMInferenceRequest \<Rightarrow> string \<Rightarrow> RunnerTaskResponse" where
  "errorSession req err =
     \<lparr>Resp_Type = WorkerTaskResponseTypeResult,
      Resp_SessionID = Req_SessionID req,
      Resp_InteractionID = [],
      Resp_Owner = Req_Owner req,
      Resp_Done = False,
      Resp_Message = [],
      Resp_Usage = zeroUsage,
      Resp_ToolCalls = [],
      Resp_ToolCallID = [],
      Resp_Error = err\<rparr>"

subsection \<open>processInteraction\<close>

text \<open>
  The map \<open>toolCalls\<close> is a list of key-value pairs with distinct keys;
  \<open>toolCalls[toolCall.ID] = toolCall\<close> is \<open>AList.update\<close>: the value under an existing
  key is replaced, a new key is added.
\<close>

definition store_toolCalls :: "ToolCall list \<Rightarrow> (string \<times> ToolCall) list \<Rightarrow> (string \<times> ToolCall) list" where
  "store_toolCalls deltaToolCalls toolCalls =
     (if length deltaToolCalls > 0
      then fold (\<lambda>toolCall m. AList.update (ToolCall_ID toolCall) toolCall m) deltaToolCalls toolCalls
      else toolCalls)"

text \<open>
  The \<open>for\<close> loop of the streaming branch, one equation for each result of
  \<open>stream.Recv()\<close>; \<open>buf\<close> and \<open>toolCalls\<close> are the loop's variables. The result is the
  trace of the loop and how \<open>processInteraction\<close> ends. \<open>response.Choices[0]\<close> panics
  on a response without choices.
\<close>

fun recv_loop ::
  "Client \<Rightarrow> RunnerLLMInferenceRequest \<Rightarrow> ChatCompletionStream \<Rightarrow> string \<Rightarrow> (string \<times> ToolCall) list
     \<Rightarrow> RunnerTaskResponse list \<times> outcome" where
  "recv_loop client inferenceReq RecvEOF buf toolCalls =
     ([emitStreamDone inferenceReq,
       responseProcessor inferenceReq zeroUsage buf (map snd (rangeOrder client toolCalls)) [] True],
      ReturnNil)"
| "recv_loop client inferenceReq (RecvError err) buf toolCalls =
     ([errorSession inferenceReq err], ReturnError err)"
| "recv_loop client inferenceReq (RecvResponse choices stream) buf toolCalls =
     (case choices of
        [] \<Rightarrow> ([], Panics)
      | choice # _ \<Rightarrow>
          (case recv_loop client inferenceReq stream (buf @ Delta_Content choice)
                  (store_toolCalls (Delta_ToolCalls choice) toolCalls) of
             (frames, r) \<Rightarrow>
               (responseProcessor inferenceReq zeroUsage (Delta_Content choice)
                  (Delta_ToolCalls choice) [] False # frames, r)))"

definition processInteraction ::
  "Client \<Rightarrow> RunnerLLMInferenceRequest \<Rightarrow> RunnerTaskResponse list \<times> outcome" where
  "processInteraction client inferenceReq =
     (if Req_Stream inferenceReq then
        (case CreateChatCompletionStream client of
           Inl err \<Rightarrow> ([], ReturnError (''failed to get response from inference API: '' @ err))
         | Inr stream \<Rightarrow> recv_loop client inferenceReq stream [] [])
      else
        (case CreateChatCompletion client of
           Inl err \<Rightarrow> ([], ReturnError (''failed to get response from inference API: '' @ err))
         | Inr response \<Rightarrow>
             (case Choices response of
                [] \<Rightarrow> ([emitStreamDone inferenceReq], Panics)
              | choice # _ \<Rightarrow>
                  ([emitStreamDone inferenceReq,
                    responseProcessor inferenceReq
                      \<lparr>PromptTokens = PromptTokens (Response_Usage response),
                       CompletionTokens = CompletionTokens (Response_Usage response),
                       TotalTokens = TotalTokens (Response_Usage response),
                       DurationMs = sinceStartMs client\<rparr>
                      (Message_Content choice) (Message_ToolCalls choice)
                      (Message_ToolCallID choice) True],
                   ReturnNil))))"

subsection \<open>The instance\<close>

text \<open>
  Instants are nanoseconds since Go's zero time; \<open>IsZero\<close> holds of the zero time only.
  Durations are 64-bit nanosecond counts: \<open>time.Since(t)\<close> is the difference of now and
  \<open>t\<close>, cut to the range of a duration as \<open>Time.Sub\<close> does.
\<close>

type_synonym Time = int
type_synonym Duration = int

definition maxDuration :: Duration where
  "maxDuration = 2 ^ 63 - 1"

definition minDuration :: Duration where
  "minDuration = - (2 ^ 63)"

definition Second :: Duration where
  "Second = 1000000000"

definition IsZero :: "Time \<Rightarrow> bool" where
  "IsZero t \<longleftrightarrow> t = 0"

definition time_Since :: "Time \<Rightarrow> Time \<Rightarrow> Duration" where
  "time_Since now t =
     (if now - t > maxDuration then maxDuration
      else if now - t < minDuration then minDuration
      else now - t)"

record Cmd =
  Pid :: int

text \<open>
  The fields of \<open>OllamaInferenceModelInstance\<close> that the functions below read or write.
  \<open>InstanceTTL\<close> is \<open>runnerOptions.Config.Runtimes.Ollama.InstanceTTL\<close>.
  \<open>workChClosed\<close> says that \<open>workCh\<close> has been closed, \<open>ctxCancelled\<close> that \<open>cancel\<close> has
  been called.
\<close>

record OllamaInferenceModelInstance =
  instance_id :: string
  modelName :: string
  InstanceTTL :: Duration
  workChClosed :: bool
  ctxCancelled :: bool
  currentCommand :: "Cmd option"
  initialRequest :: "RunnerLLMInferenceRequest option"
  currentRequest :: "RunnerLLMInferenceRequest option"
  lastActivity :: Time

subsection \<open>Stop\<close>

text \<open>
  \<open>killProcessTree\<close> is not among the sources: it is a parameter, from the process id to
  \<open>nil\<close> (\<open>None\<close>) or an error. Closing a channel that is already closed panics.
\<close>

definition Stop ::
  "(int \<Rightarrow> string option) \<Rightarrow> OllamaInferenceModelInstance \<Rightarrow> outcome \<times> OllamaInferenceModelInstance" where
  "Stop killProcessTree i =
     (case currentCommand i of
        None \<Rightarrow> (ReturnError ''no Ollama process to stop'', i)
      | Some cmd \<Rightarrow>
          (case killProcessTree (Pid cmd) of
             Some err \<Rightarrow> (ReturnError err, i)
           | None \<Rightarrow>
               if workChClosed i then (Panics, i)
               else (ReturnNil, i\<lparr>workChClosed := True, ctxCancelled := True\<rparr>)))"

subsection \<open>Stale and GetState\<close>

definition Stale :: "Time \<Rightarrow> OllamaInferenceModelInstance \<Rightarrow> bool" where
  "Stale now i \<longleftrightarrow> time_Since now (lastActivity i) > InstanceTTL i"

text \<open>
  The snapshot of \<open>GetState\<close>, with the fields computed from the instance alone. The
  mode is a constant and the current session is always \<open>nil\<close> in the source; timeout,
  last activity, job history and memory are copied or converted from fields that no
  property below reads.
\<close>

record ModelInstanceState =
  State_ID :: string
  State_ModelName :: string
  State_InitialSessionID :: string
  State_Stale :: bool

definition GetState :: "Time \<Rightarrow> OllamaInferenceModelInstance \<Rightarrow> string + ModelInstanceState" where
  "GetState now i =
     (case initialRequest i of
        None \<Rightarrow> Inl ''no initial session''
      | Some r \<Rightarrow>
          Inr \<lparr>State_ID = instance_id i,
               State_ModelName = modelName i,
               State_InitialSessionID = Req_SessionID r,
               State_Stale =
                 (if IsZero (lastActivity i) then False
                  else if time_Since now (lastActivity i) > InstanceTTL i then True
                  else False)\<rparr>)"

subsection \<open>The work case of the main loop\<close>







section \<open>Notions used to state the properties\<close>

text \<open>
  The deltas that the streaming loop reads from a stream, in order: the first choice of
  each response up to the end of the stream, or up to a response without choices.
\<close>

fun stream_deltas :: "ChatCompletionStream \<Rightarrow> Delta list" where
  "stream_deltas RecvEOF = []"
| "stream_deltas (RecvError err) = []"
| "stream_deltas (RecvResponse [] stream) = []"
| "stream_deltas (RecvResponse (choice # _) stream) = choice # stream_deltas stream"

text \<open>How reading a stream ends: at \<open>io.EOF\<close>, at an error, or at a response without choices.\<close>

fun stream_end :: "ChatCompletionStream \<Rightarrow> outcome" where
  "stream_end RecvEOF = ReturnNil"
| "stream_end (RecvError err) = ReturnError err"
| "stream_end (RecvResponse [] stream) = Panics"
| "stream_end (RecvResponse (choice # _) stream) = stream_end stream"

text \<open>All tool-call deltas of a stream, in the order in which they arrive.\<close>

definition stream_toolCalls :: "ChatCompletionStream \<Rightarrow> ToolCall list" where
  "stream_toolCalls stream = concat (map Delta_ToolCalls (stream_deltas stream))"

text \<open>The Stream frame that the loop emits for one delta.\<close>

definition delta_frame :: "RunnerLLMInferenceRequest \<Rightarrow> Delta \<Rightarrow> RunnerTaskResponse" where
  "delta_frame req delta =
     responseProcessor req zeroUsage (Delta_Content delta) (Delta_ToolCalls delta) [] False"


section \<open>Concrete inputs\<close>

definition example_session :: "string \<Rightarrow> string \<Rightarrow> string \<Rightarrow> CreatorType \<Rightarrow> Session" where
  "example_session sid ty dir creator =
     \<lparr>ID = sid, Mode = ''Create'', Type = ty, ModelName = ''mistral'', LoraDir = dir,
      Interactions = [\<lparr>Creator = creator, Finished = False\<rparr>]\<rparr>"

definition example_filter :: "string \<Rightarrow> string \<Rightarrow> SessionFilter" where
  "example_filter ty dir =
     \<lparr>Filter_Mode = [], Filter_Type = ty, Filter_ModelName = [], Filter_LoraDir = dir\<rparr>"

definition example_request :: "bool \<Rightarrow> RunnerLLMInferenceRequest" where
  "example_request stream =
     \<lparr>Req_SessionID = ''ses1'', Req_InteractionID = ''int1'', Req_Owner = ''user1'',
      Req_Stream = stream\<rparr>"


definition example_client :: "string + ChatCompletionStream \<Rightarrow> string + ChatCompletionResponse \<Rightarrow> Client" where
  "example_client streamAnswer answer =
     \<lparr>CreateChatCompletionStream = streamAnswer, CreateChatCompletion = answer,
      sinceStartMs = 12, rangeOrder = (\<lambda>m. m)\<rparr>"

text \<open>The three tool-call deltas of the specification's aggregation example.\<close>

definition example_toolCall_stream :: ChatCompletionStream where
  "example_toolCall_stream =
     RecvResponse [\<lparr>Delta_Content = [], Delta_ToolCalls =
         [\<lparr>ToolCall_ID = ''t1'', Function_Name = ''f'', Function_Arguments = []\<rparr>]\<rparr>]
    (RecvResponse [\<lparr>Delta_Content = [], Delta_ToolCalls =
         [\<lparr>ToolCall_ID = ''t1'', Function_Name = [],
           Function_Arguments = [CHR ''{'', CHR 0x22, CHR ''x'', CHR 0x22, CHR '':'']\<rparr>]\<rparr>]
    (RecvResponse [\<lparr>Delta_Content = [], Delta_ToolCalls =
         [\<lparr>ToolCall_ID = ''t1'', Function_Name = [], Function_Arguments = ''1}''\<rparr>]\<rparr>]
     RecvEOF))"



text \<open>
  An instance with a TTL of five seconds, a started subprocess or none, and an initial
  request.
\<close>

definition example_instance :: "Cmd option \<Rightarrow> bool \<Rightarrow> Time \<Rightarrow> OllamaInferenceModelInstance" where
  "example_instance cmd closed t =
     \<lparr>instance_id = ''inst1'', modelName = ''mistral'', InstanceTTL = 5 * Second,
      workChClosed = closed, ctxCancelled = closed, currentCommand = cmd,
      initialRequest = Some (example_request True), currentRequest = None,
      lastActivity = t\<rparr>"

text \<open>An instant some two thousand years after the zero time.\<close>

definition example_now :: Time where
  "example_now = 63900000000 * Second"

definition kill_succeeds :: "int \<Rightarrow> string option" where
  "kill_succeeds pid = None"

definition kill_fails :: "int \<Rightarrow> string option" where
  "kill_fails pid = Some ''no such process''"

section \<open>Lemmas about the queue loops\<close>

lemma push_loop_eq:
  "push_loop s q acc ex =
     (acc @ map (\<lambda>e. if ID e = ID s then s else e) q, ex \<or> ID s \<in> ID ` set q)"
  by (induction q arbitrary: acc ex) auto

lemma PushSessionQueue_eq:
  "PushSessionQueue c s =
     c\<lparr>sessionQueue :=
         (if ID s \<in> ID ` set (sessionQueue c)
          then map (\<lambda>e. if ID e = ID s then s else e) (sessionQueue c)
          else sessionQueue c @ [s])\<rparr>"
proof -
  have "ID s \<notin> ID ` set q \<Longrightarrow> map (\<lambda>e. if ID e = ID s then s else e) q = q" for q
    by (induction q) auto
  then show ?thesis
    by (simp add: PushSessionQueue_def push_loop_eq)
qed

lemma replace_unique:
  assumes "ID x = ID s" "ID s \<notin> ID ` set pre" "ID s \<notin> ID ` set post"
  shows "map (\<lambda>e. if ID e = ID s then s else e) (pre @ x # post) = pre @ s # post"
proof -
  have "ID s \<notin> ID ` set q \<Longrightarrow> map (\<lambda>e. if ID e = ID s then s else e) q = q" for q
    by (induction q) auto
  with assms show ?thesis by simp
qed

lemma shift_loop_skip:
  "\<forall>x\<in>set pre. \<not> session_matches f x \<Longrightarrow>
     shift_loop f acc (pre @ rest) = shift_loop f (acc @ pre) rest"
proof (induction pre arbitrary: acc)
  case Nil
  show ?case by simp
next
  case (Cons a pre)
  then have "shift_loop f acc (a # pre @ rest) = shift_loop f (acc @ [a]) (pre @ rest)"
    by (auto simp: session_matches_def)
  with Cons show ?case by simp
qed

lemma shift_loop_hit:
  "session_matches f s \<Longrightarrow> shift_loop f acc (s # post) = (Some s, acc @ post)"
  by (auto simp: session_matches_def)

lemma shift_loop_first:
  assumes "session_matches f s" "\<forall>x\<in>set pre. \<not> session_matches f x"
  shows "shift_loop f [] (pre @ s # post) = (Some s, pre @ post)"
  using assms by (simp add: shift_loop_skip shift_loop_hit del: shift_loop.simps)

lemma shift_loop_none:
  assumes "\<forall>x\<in>set q. \<not> session_matches f x"
  shows "shift_loop f [] q = (None, q)"
  using shift_loop_skip[OF assms, of "[]" "[]"] by simp

lemma Shift_matches_Nil:
  assumes "filter (session_matches f) (sessionQueue c) = []"
  shows "ShiftSessionQueue c f = (None, c)"
proof -
  from assms have "\<forall>x\<in>set (sessionQueue c). \<not> session_matches f x"
    by (simp add: filter_empty_conv)
  then show ?thesis
    by (simp add: ShiftSessionQueue_def shift_loop_none)
qed

lemma Shift_matches_Cons:
  assumes "filter (session_matches f) (sessionQueue c) = m # ms"
  shows "\<exists>c'. ShiftSessionQueue c f = (Some m, c') \<and> filter (session_matches f) (sessionQueue c') = ms"
proof -
  from assms obtain pre post where
    q: "sessionQueue c = pre @ m # post" and pre: "\<forall>x\<in>set pre. \<not> session_matches f x"
    and m: "session_matches f m" and ms: "ms = filter (session_matches f) post"
    by (auto simp: filter_eq_Cons_iff)
  from pre have "filter (session_matches f) pre = []" by (simp add: filter_empty_conv)
  with q pre m ms show ?thesis
    by (simp add: ShiftSessionQueue_def shift_loop_first)
qed

lemma ShiftTimes_fifo:
  "fst (ShiftTimes n c f) =
     map Some (take n (filter (session_matches f) (sessionQueue c))) @
     replicate (n - length (filter (session_matches f) (sessionQueue c))) None"
proof (induction n arbitrary: c)
  case 0
  show ?case by simp
next
  case (Suc n)
  show ?case
  proof (cases "filter (session_matches f) (sessionQueue c)")
    case Nil
    then have "ShiftSessionQueue c f = (None, c)" by (rule Shift_matches_Nil)
    with Nil Suc[of c] show ?thesis
      by (simp add: case_prod_beta)
  next
    case (Cons m ms)
    then obtain c' where "ShiftSessionQueue c f = (Some m, c')"
      "filter (session_matches f) (sessionQueue c') = ms"
      using Shift_matches_Cons by blast
    with Cons Suc[of c'] show ?thesis
      by (simp add: case_prod_beta)
  qed
qed

lemma load_loop_eq:
  "n \<le> length sessions \<Longrightarrow>
     load_loop sessions n acc = acc @ filter awaiting_response (rev (take n sessions))"
proof (induction n arbitrary: acc)
  case 0
  show ?case by simp
next
  case (Suc n)
  then have n: "n < length sessions" by simp
  have c: "Creator x \<noteq> CreatorTypeSystem \<longleftrightarrow> Creator x = CreatorTypeUser" for x :: Interaction
    by (cases "Creator x") auto
  from Suc n show ?case
    by (auto simp: take_Suc_conv_app_nth awaiting_response_def Let_def c)
qed

lemma loadSessionQueues_eq:
  "loadSessionQueues c (Inr sessions) =
     Inr (c\<lparr>sessionQueue := filter awaiting_response (rev sessions)\<rparr>)"
  by (simp add: loadSessionQueues_def load_loop_eq)

lemma distinct_push:
  assumes "distinct (map ID (sessionQueue c))"
  shows "distinct (map ID (sessionQueue (PushSessionQueue c s)))"
proof -
  have "map ID (map (\<lambda>e. if ID e = ID s then s else e) q) = map ID q" for q
    by (induction q) auto
  with assms show ?thesis
    by (simp add: PushSessionQueue_eq del: map_map)
qed

lemma distinct_shift:
  assumes "distinct (map ID (sessionQueue c))"
  shows "distinct (map ID (sessionQueue (snd (ShiftSessionQueue c f))))"
proof (cases "\<exists>x\<in>set (sessionQueue c). session_matches f x")
  case False
  then show ?thesis
    using assms by (simp add: ShiftSessionQueue_def shift_loop_none)
next
  case True
  then obtain pre s post where
    q: "sessionQueue c = pre @ s # post" and s: "session_matches f s"
    and pre: "\<forall>x\<in>set pre. \<not> session_matches f x"
    using split_list_first_prop[of "sessionQueue c" "session_matches f"] by blast
  from assms q have "distinct (map ID (pre @ post))" by simp
  with q s pre show ?thesis
    by (simp add: ShiftSessionQueue_def shift_loop_first)
qed

section \<open>Lemmas about the trace of a request\<close>

lemma recv_loop_eq:
  "recv_loop client req stream buf tcs =
     (map (delta_frame req) (stream_deltas stream) @
        (case stream_end stream of
           ReturnNil \<Rightarrow>
             [emitStreamDone req,
              responseProcessor req zeroUsage
                (buf @ concat (map Delta_Content (stream_deltas stream)))
                (map snd (rangeOrder client
                   (fold store_toolCalls (map Delta_ToolCalls (stream_deltas stream)) tcs)))
                [] True]
         | ReturnError e \<Rightarrow> [errorSession req e]
         | Panics \<Rightarrow> []),
      stream_end stream)"
proof (induction stream arbitrary: buf tcs)
  case RecvEOF
  show ?case by simp
next
  case (RecvError e)
  show ?case by simp
next
  case (RecvResponse choices stream)
  show ?case
  proof (cases choices)
    case Nil
    then show ?thesis by simp
  next
    case (Cons choice rest)
    then show ?thesis
      by (simp add: RecvResponse.IH delta_frame_def split: outcome.splits)
  qed
qed







section \<open>Lemmas about the tool-call accumulator\<close>

lemma fold_store_toolCalls:
  "fold store_toolCalls dss tcs =
     fold (\<lambda>toolCall m. AList.update (ToolCall_ID toolCall) toolCall m) (concat dss) tcs"
  by (induction dss arbitrary: tcs) (simp_all add: store_toolCalls_def)

lemma find_snoc:
  "find P (xs @ [a]) = (case find P xs of Some t \<Rightarrow> Some t | None \<Rightarrow> if P a then Some a else None)"
  by (induction xs) auto

lemma map_of_fold_update:
  "map_of (fold (\<lambda>toolCall m. AList.update (ToolCall_ID toolCall) toolCall m) tcs m) k =
     (case find (\<lambda>t. ToolCall_ID t = k) (rev tcs) of Some t \<Rightarrow> Some t | None \<Rightarrow> map_of m k)"
proof (induction tcs arbitrary: m)
  case Nil
  show ?case by simp
next
  case (Cons a tcs)
  show ?case
    by (simp add: Cons.IH find_snoc AList.update_conv' split: option.splits)
qed

lemma distinct_fold_update:
  "distinct (map fst m) \<Longrightarrow>
     distinct (map fst (fold (\<lambda>toolCall m. AList.update (ToolCall_ID toolCall) toolCall m) tcs m))"
  by (induction tcs arbitrary: m) (simp_all add: AList.distinct_update)

lemma keys_fold_update:
  "\<forall>(k, t)\<in>set m. ToolCall_ID t = k \<Longrightarrow>
     \<forall>(k, t)\<in>set (fold (\<lambda>toolCall m. AList.update (ToolCall_ID toolCall) toolCall m) tcs m).
        ToolCall_ID t = k"
proof (induction tcs arbitrary: m)
  case Nil
  then show ?case by simp
next
  case (Cons a tcs)
  have "\<forall>(k, t)\<in>set (AList.update (ToolCall_ID a) a m). ToolCall_ID t = k"
    using Cons.prems by (induction m) auto
  then show ?case by (simp add: Cons.IH)
qed

lemma toolCalls_of_accumulator:
  fixes tcs :: "ToolCall list"
  defines "acc \<equiv> fold (\<lambda>toolCall m. AList.update (ToolCall_ID toolCall) toolCall m) tcs []"
  assumes perm: "mset ys = mset acc"
  shows "distinct (map ToolCall_ID (map snd ys))"
    and "set (map snd ys) = {tc. find (\<lambda>t. ToolCall_ID t = ToolCall_ID tc) (rev tcs) = Some tc}"
proof -
  have d: "distinct (map fst acc)" unfolding acc_def by (rule distinct_fold_update) simp
  have k: "\<forall>(k, t)\<in>set acc. ToolCall_ID t = k" unfolding acc_def by (rule keys_fold_update) simp
  from perm have s: "set ys = set acc" by (rule mset_eq_setD)
  from perm have "mset (map fst ys) = mset (map fst acc)" by (metis mset_map)
  with d have dy: "distinct (map fst ys)" by (metis mset_eq_imp_distinct_iff)
  from k s have eq: "map (ToolCall_ID \<circ> snd) ys = map fst ys" by (auto simp: case_prod_beta)
  from dy show "distinct (map ToolCall_ID (map snd ys))" by (simp add: eq)
  have mo: "map_of acc k = find (\<lambda>t. ToolCall_ID t = k) (rev tcs)" for k
    unfolding acc_def by (simp add: map_of_fold_update split: option.splits)
  show "set (map snd ys) = {tc. find (\<lambda>t. ToolCall_ID t = ToolCall_ID tc) (rev tcs) = Some tc}"
  proof (intro set_eqI iffI)
    fix tc assume "tc \<in> set (map snd ys)"
    then obtain k' where "(k', tc) \<in> set acc" using s by auto
    with k have "(ToolCall_ID tc, tc) \<in> set acc" by auto
    with d have "map_of acc (ToolCall_ID tc) = Some tc" by simp
    then show "tc \<in> {tc. find (\<lambda>t. ToolCall_ID t = ToolCall_ID tc) (rev tcs) = Some tc}"
      by (simp add: mo)
  next
    fix tc assume "tc \<in> {tc. find (\<lambda>t. ToolCall_ID t = ToolCall_ID tc) (rev tcs) = Some tc}"
    then have "map_of acc (ToolCall_ID tc) = Some tc" by (simp add: mo)
    then have "(ToolCall_ID tc, tc) \<in> set acc" by (rule map_of_SomeD)
    with s show "tc \<in> set (map snd ys)" by force
  qed
qed

section \<open>The session queue: properties\<close>

text \<open>
  C4. For every queue state and every session \<open>s\<close>, \<open>PushSessionQueue\<close> puts \<open>s\<close> in the
  place of each entry that has the id of \<open>s\<close>, at that entry's position, and leaves
  every other entry and the order as they are; when no entry has that id, \<open>s\<close> is
  appended at the tail. In particular, in a queue \<open>pre @ x # post\<close> where only \<open>x\<close> has
  the id of \<open>s\<close>, the result is \<open>pre @ s # post\<close>: pushing X' into [A, X, B] gives
  [A, X', B].
\<close>

theorem PushSessionQueue_replaces_in_place:
  "PushSessionQueue c s =
     c\<lparr>sessionQueue :=
         (if ID s \<in> ID ` set (sessionQueue c)
          then map (\<lambda>e. if ID e = ID s then s else e) (sessionQueue c)
          else sessionQueue c @ [s])\<rparr>
   \<and> (\<forall>pre x post.
         sessionQueue c = pre @ x # post \<and> ID x = ID s \<and>
         ID s \<notin> ID ` set pre \<and> ID s \<notin> ID ` set post
         \<longrightarrow> sessionQueue (PushSessionQueue c s) = pre @ s # post)"
proof -
  have "sessionQueue (PushSessionQueue c s) = pre @ s # post"
    if "sessionQueue c = pre @ x # post" "ID x = ID s"
       "ID s \<notin> ID ` set pre" "ID s \<notin> ID ` set post" for pre x post
  proof -
    from that(1) replace_unique [OF that(2,3,4)]
    have "map (\<lambda>e. if ID e = ID s then s else e) (sessionQueue c) = pre @ s # post"
      by simp
    moreover from that have "ID s \<in> ID ` set (sessionQueue c)"
      by (metis image_eqI in_set_conv_decomp)
    ultimately show ?thesis by (simp add: PushSessionQueue_eq)
  qed
  then show ?thesis using PushSessionQueue_eq by blast
qed

theorem PushSessionQueue_replaces_in_place_witness:
  "sessionQueue
     (PushSessionQueue
        \<lparr>sessionQueue = [example_session ''A'' ''Text'' [] CreatorTypeUser,
                         example_session ''X'' ''Text'' [] CreatorTypeUser,
                         example_session ''B'' ''Text'' [] CreatorTypeUser]\<rparr>
        (example_session ''X'' ''Image'' [] CreatorTypeUser))
   = [example_session ''A'' ''Text'' [] CreatorTypeUser,
      example_session ''X'' ''Image'' [] CreatorTypeUser,
      example_session ''B'' ''Text'' [] CreatorTypeUser]"
proof -
  let ?A = "example_session ''A'' ''Text'' [] CreatorTypeUser"
  let ?X = "example_session ''X'' ''Text'' [] CreatorTypeUser"
  let ?X' = "example_session ''X'' ''Image'' [] CreatorTypeUser"
  let ?B = "example_session ''B'' ''Text'' [] CreatorTypeUser"
  have "sessionQueue \<lparr>sessionQueue = [?A, ?X, ?B]\<rparr> = [?A] @ ?X # [?B] \<and> ID ?X = ID ?X' \<and>
        ID ?X' \<notin> ID ` set [?A] \<and> ID ?X' \<notin> ID ` set [?B]"
    by (simp add: example_session_def)
  with PushSessionQueue_replaces_in_place [of "\<lparr>sessionQueue = [?A, ?X, ?B]\<rparr>" ?X']
  have "sessionQueue (PushSessionQueue \<lparr>sessionQueue = [?A, ?X, ?B]\<rparr> ?X') = [?A] @ ?X' # [?B]"
    by blast
  then show ?thesis by simp
qed

text \<open>
  C5, as amended. For every queue state and every filter, \<open>ShiftSessionQueue\<close> scans from
  the head and returns the first session that matches the filter on mode, type and
  model name, an empty field of the filter matching any session, and removes exactly
  that entry; the adapter directory of the filter is not consulted, so the result is
  the same for every value of it. Repeated shifts with one filter return the matching
  sessions in queue order, and nothing once they are used up.
\<close>

theorem ShiftSessionQueue_first_match:
  "(\<forall>pre s post.
       sessionQueue c = pre @ s # post \<and> session_matches f s \<and>
       (\<forall>x\<in>set pre. \<not> session_matches f x)
       \<longrightarrow> ShiftSessionQueue c f = (Some s, c\<lparr>sessionQueue := pre @ post\<rparr>))
   \<and> ShiftSessionQueue c (f\<lparr>Filter_LoraDir := dir\<rparr>) = ShiftSessionQueue c f
   \<and> fst (ShiftTimes n c f) =
       map Some (take n (filter (session_matches f) (sessionQueue c))) @
       replicate (n - length (filter (session_matches f) (sessionQueue c))) None"
proof -
  have "shift_loop (f\<lparr>Filter_LoraDir := dir\<rparr>) acc q = shift_loop f acc q" for acc q
    by (induction q arbitrary: acc) simp_all
  then have "ShiftSessionQueue c (f\<lparr>Filter_LoraDir := dir\<rparr>) = ShiftSessionQueue c f"
    by (simp add: ShiftSessionQueue_def)
  then show ?thesis
    by (simp add: ShiftSessionQueue_def shift_loop_first ShiftTimes_fifo)
qed

theorem ShiftSessionQueue_first_match_witness:
  "ShiftSessionQueue
     \<lparr>sessionQueue = [example_session ''A'' ''Text'' [] CreatorTypeUser,
                      example_session ''B'' ''Image'' [] CreatorTypeUser,
                      example_session ''C'' ''Text'' [] CreatorTypeUser]\<rparr>
     (example_filter ''Text'' [])
   = (Some (example_session ''A'' ''Text'' [] CreatorTypeUser),
      \<lparr>sessionQueue = [example_session ''B'' ''Image'' [] CreatorTypeUser,
                       example_session ''C'' ''Text'' [] CreatorTypeUser]\<rparr>)
   \<and> fst (ShiftTimes 3
        \<lparr>sessionQueue = [example_session ''A'' ''Text'' [] CreatorTypeUser,
                         example_session ''B'' ''Image'' [] CreatorTypeUser,
                         example_session ''C'' ''Text'' [] CreatorTypeUser]\<rparr>
        (example_filter ''Text'' []))
     = [Some (example_session ''A'' ''Text'' [] CreatorTypeUser),
        Some (example_session ''C'' ''Text'' [] CreatorTypeUser), None]"
proof -
  let ?A = "example_session ''A'' ''Text'' [] CreatorTypeUser"
  let ?B = "example_session ''B'' ''Image'' [] CreatorTypeUser"
  let ?C = "example_session ''C'' ''Text'' [] CreatorTypeUser"
  let ?c = "\<lparr>sessionQueue = [?A, ?B, ?C]\<rparr>"
  let ?f = "example_filter ''Text'' []"
  note inst = ShiftSessionQueue_first_match [of ?c ?f "[]" 3]
  have hyp: "sessionQueue ?c = [] @ ?A # [?B, ?C] \<and> session_matches ?f ?A \<and>
        (\<forall>x\<in>set []. \<not> session_matches ?f x)"
    by (simp add: example_session_def example_filter_def session_matches_def)
  with inst have 1: "ShiftSessionQueue ?c ?f = (Some ?A, ?c\<lparr>sessionQueue := [] @ [?B, ?C]\<rparr>)"
    by blast
  have m: "filter (session_matches ?f) (sessionQueue ?c) = [?A, ?C]"
    by (simp add: example_session_def example_filter_def session_matches_def)
  from inst have "fst (ShiftTimes 3 ?c ?f) =
       map Some (take 3 (filter (session_matches ?f) (sessionQueue ?c))) @
       replicate (3 - length (filter (session_matches ?f) (sessionQueue ?c))) None"
    by blast
  then have 2: "fst (ShiftTimes 3 ?c ?f) = [Some ?A, Some ?C, None]"
    by (simp only: m) (simp add: numeral_3_eq_3)
  from 1 2 show ?thesis by simp
qed

theorem ShiftSessionQueue_ignores_adapter_directory_counterexample:
  "ShiftSessionQueue
     \<lparr>sessionQueue = [example_session ''A'' ''Text'' ''dirA'' CreatorTypeUser]\<rparr>
     (example_filter [] ''dirB'')
   = (Some (example_session ''A'' ''Text'' ''dirA'' CreatorTypeUser), \<lparr>sessionQueue = []\<rparr>)
   \<and> \<not> spec_session_matches (example_filter [] ''dirB'')
         (example_session ''A'' ''Text'' ''dirA'' CreatorTypeUser)"
  by (simp add: ShiftSessionQueue_def example_session_def example_filter_def
      spec_session_matches_def)

text \<open>
  C6, as amended. For every queue state and every filter whose mode, type and model
  name are matched by no queued session, an empty field matching any session,
  \<open>ShiftSessionQueue\<close> returns none and leaves the queue as it is: the same sessions in
  the same order. The adapter directory of the filter is not consulted: a filter that
  no session matches on the adapter directory alone still gets a session.
\<close>

theorem ShiftSessionQueue_miss:
  "\<forall>s\<in>set (sessionQueue c). \<not> session_matches f s \<Longrightarrow> ShiftSessionQueue c f = (None, c)"
  by (simp add: ShiftSessionQueue_def shift_loop_none)

theorem ShiftSessionQueue_miss_witness:
  "ShiftSessionQueue
     \<lparr>sessionQueue = [example_session ''A'' ''Image'' [] CreatorTypeUser,
                      example_session ''B'' ''Image'' [] CreatorTypeUser]\<rparr>
     (example_filter ''Text'' [])
   = (None,
      \<lparr>sessionQueue = [example_session ''A'' ''Image'' [] CreatorTypeUser,
                       example_session ''B'' ''Image'' [] CreatorTypeUser]\<rparr>)"
proof -
  let ?c = "\<lparr>sessionQueue = [example_session ''A'' ''Image'' [] CreatorTypeUser,
                      example_session ''B'' ''Image'' [] CreatorTypeUser]\<rparr>"
  have "\<forall>s\<in>set (sessionQueue ?c). \<not> session_matches (example_filter ''Text'' []) s"
    by (simp add: example_session_def example_filter_def session_matches_def)
  then show ?thesis by (rule ShiftSessionQueue_miss)
qed

theorem ShiftSessionQueue_miss_on_adapter_directory_counterexample:
  "\<not> spec_session_matches (example_filter ''Image'' ''dirC'')
        (example_session ''A'' ''Image'' ''dirA'' CreatorTypeUser)
   \<and> \<not> spec_session_matches (example_filter ''Image'' ''dirC'')
        (example_session ''B'' ''Image'' ''dirB'' CreatorTypeUser)
   \<and> ShiftSessionQueue
       \<lparr>sessionQueue = [example_session ''A'' ''Image'' ''dirA'' CreatorTypeUser,
                        example_session ''B'' ''Image'' ''dirB'' CreatorTypeUser]\<rparr>
       (example_filter ''Image'' ''dirC'')
     = (Some (example_session ''A'' ''Image'' ''dirA'' CreatorTypeUser),
        \<lparr>sessionQueue = [example_session ''B'' ''Image'' ''dirB'' CreatorTypeUser]\<rparr>)"
  by (simp add: ShiftSessionQueue_def example_session_def example_filter_def
      spec_session_matches_def)

text \<open>
  C7. For every list of sessions that the store returns, in descending recency,
  \<open>loadSessionQueues\<close> replaces the queue with exactly those sessions whose interaction
  list is non-empty and whose last interaction was created by the User, in reversed
  order, oldest first; sessions without interactions and sessions whose last
  interaction was created by the System are skipped. The store order
  [s1 (last by User), s2 (last by System), s3 (last by User)] gives the queue [s3, s1].
\<close>

theorem loadSessionQueues_rebuilds:
  "loadSessionQueues c (Inr sessions) =
     Inr (c\<lparr>sessionQueue := filter awaiting_response (rev sessions)\<rparr>)
   \<and> (\<forall>s. awaiting_response s \<longleftrightarrow>
          Interactions s \<noteq> [] \<and> Creator (last (Interactions s)) = CreatorTypeUser)"
  by (simp add: loadSessionQueues_eq awaiting_response_def)

theorem loadSessionQueues_rebuilds_witness:
  "loadSessionQueues \<lparr>sessionQueue = [example_session ''old'' ''Text'' [] CreatorTypeUser]\<rparr>
     (Inr [example_session ''s1'' ''Text'' [] CreatorTypeUser,
           example_session ''s2'' ''Text'' [] CreatorTypeSystem,
           (example_session ''s0'' ''Text'' [] CreatorTypeUser)\<lparr>Interactions := []\<rparr>,
           example_session ''s3'' ''Text'' [] CreatorTypeUser])
   = Inr \<lparr>sessionQueue = [example_session ''s3'' ''Text'' [] CreatorTypeUser,
                          example_session ''s1'' ''Text'' [] CreatorTypeUser]\<rparr>"
proof -
  let ?c = "\<lparr>sessionQueue = [example_session ''old'' ''Text'' [] CreatorTypeUser]\<rparr>"
  let ?sessions = "[example_session ''s1'' ''Text'' [] CreatorTypeUser,
           example_session ''s2'' ''Text'' [] CreatorTypeSystem,
           (example_session ''s0'' ''Text'' [] CreatorTypeUser)\<lparr>Interactions := []\<rparr>,
           example_session ''s3'' ''Text'' [] CreatorTypeUser]"
  have "filter awaiting_response (rev ?sessions) =
          [example_session ''s3'' ''Text'' [] CreatorTypeUser,
           example_session ''s1'' ''Text'' [] CreatorTypeUser]"
    by (simp add: awaiting_response_def example_session_def)
  with loadSessionQueues_rebuilds [of ?c ?sessions] show ?thesis
    by simp
qed

text \<open>
  C10. For every queue state whose session ids are pairwise distinct, the queue after
  any \<open>PushSessionQueue\<close> and the queue after any \<open>ShiftSessionQueue\<close> have pairwise
  distinct session ids as well.
\<close>

theorem distinct_ids_preserved:
  "distinct (map ID (sessionQueue c)) \<Longrightarrow>
     distinct (map ID (sessionQueue (PushSessionQueue c s))) \<and>
     distinct (map ID (sessionQueue (snd (ShiftSessionQueue c f))))"
  by (simp add: distinct_push distinct_shift)

theorem distinct_ids_preserved_witness:
  "distinct (map ID (sessionQueue
      (PushSessionQueue
         \<lparr>sessionQueue = [example_session ''A'' ''Text'' [] CreatorTypeUser,
                          example_session ''X'' ''Text'' [] CreatorTypeUser]\<rparr>
         (example_session ''X'' ''Image'' [] CreatorTypeUser)))) \<and>
   distinct (map ID (sessionQueue (snd
      (ShiftSessionQueue
         \<lparr>sessionQueue = [example_session ''A'' ''Text'' [] CreatorTypeUser,
                          example_session ''X'' ''Text'' [] CreatorTypeUser]\<rparr>
         (example_filter ''Text'' [])))))"
proof -
  have "distinct (map ID (sessionQueue
         \<lparr>sessionQueue = [example_session ''A'' ''Text'' [] CreatorTypeUser,
                          example_session ''X'' ''Text'' [] CreatorTypeUser]\<rparr>))"
    by (simp add: example_session_def)
  then show ?thesis by (rule distinct_ids_preserved)
qed

section \<open>Lemmas about staleness\<close>

lemma time_Since_exceeds:
  assumes "minDuration \<le> ttl" "ttl < maxDuration"
  shows "time_Since now t > ttl \<longleftrightarrow> now - t > ttl"
  using assms by (auto simp: time_Since_def)

lemma GetState_Stale_iff:
  assumes "GetState now i = Inr st"
  shows "State_Stale st \<longleftrightarrow>
           \<not> IsZero (lastActivity i) \<and> time_Since now (lastActivity i) > InstanceTTL i"
  using assms by (auto simp: GetState_def split: option.splits if_splits)

lemma singleton_list:
  "distinct (map g xs) \<Longrightarrow> set xs = {a} \<Longrightarrow> xs = [a]"
proof (cases xs)
  case Nil
  assume "set xs = {a}"
  with Nil show ?thesis by simp
next
  case (Cons x ys)
  assume d: "distinct (map g xs)" and s: "set xs = {a}"
  from s Cons have x: "x = a" by auto
  from s Cons have "set ys \<subseteq> {a}" by auto
  moreover from d Cons x have "a \<notin> set ys" by auto
  ultimately have "ys = []" by (cases ys) auto
  with Cons x show ?thesis by simp
qed

section \<open>The stream protocol of the runner: properties\<close>




text \<open>
  C2, as amended. For every streaming request that completes, the tool-call deltas are
  stored in an accumulator keyed by tool-call id, a later delta replacing the earlier
  one stored under its id: the tool-call list of the final Result frame holds, for
  each id seen, exactly one element, the last delta streamed with that id, in the
  order in which the map is traversed. Given the streamed deltas
  {id:"t1", name:"f"}, {id:"t1", args:"{\"x\":"}, {id:"t1", args:"1}"}, that list has
  exactly one element, with id=t1, an empty name and arguments="1}".
\<close>

theorem toolCalls_last_delta_per_id:
  assumes "Req_Stream req"
    and "CreateChatCompletionStream client = Inr stream"
    and "processInteraction client req = (frames, ReturnNil)"
    and "\<forall>m. mset (rangeOrder client m) = mset m"
  shows "Resp_Type (last frames) = WorkerTaskResponseTypeResult
     \<and> distinct (map ToolCall_ID (Resp_ToolCalls (last frames)))
     \<and> set (Resp_ToolCalls (last frames)) =
         {tc. find (\<lambda>t. ToolCall_ID t = ToolCall_ID tc) (rev (stream_toolCalls stream)) = Some tc}
     \<and> (stream = example_toolCall_stream \<longrightarrow>
          Resp_ToolCalls (last frames) =
            [\<lparr>ToolCall_ID = ''t1'', Function_Name = [], Function_Arguments = ''1}''\<rparr>])"
proof -
  let ?acc = "fold (\<lambda>toolCall m. AList.update (ToolCall_ID toolCall) toolCall m)
                (stream_toolCalls stream) []"
  from assms(1,2,3) have r: "recv_loop client req stream [] [] = (frames, ReturnNil)"
    by (simp add: processInteraction_def)
  then have e: "stream_end stream = ReturnNil" by (simp add: recv_loop_eq)
  from r e have l: "last frames =
      responseProcessor req zeroUsage (concat (map Delta_Content (stream_deltas stream)))
        (map snd (rangeOrder client ?acc)) [] True"
    by (auto simp: recv_loop_eq fold_store_toolCalls stream_toolCalls_def)
  then have t: "Resp_ToolCalls (last frames) = map snd (rangeOrder client ?acc)"
    and ty: "Resp_Type (last frames) = WorkerTaskResponseTypeResult"
    by (simp_all add: responseProcessor_def)
  from assms(4) have p: "mset (rangeOrder client ?acc) = mset ?acc" by blast
  have d: "distinct (map ToolCall_ID (Resp_ToolCalls (last frames)))"
    unfolding t using p by (rule toolCalls_of_accumulator(1))
  have s: "set (Resp_ToolCalls (last frames)) =
         {tc. find (\<lambda>t. ToolCall_ID t = ToolCall_ID tc) (rev (stream_toolCalls stream)) = Some tc}"
    unfolding t using p by (rule toolCalls_of_accumulator(2))
  have "Resp_ToolCalls (last frames) =
            [\<lparr>ToolCall_ID = ''t1'', Function_Name = [], Function_Arguments = ''1}''\<rparr>]"
    if "stream = example_toolCall_stream"
  proof -
    have "{tc. find (\<lambda>t. ToolCall_ID t = ToolCall_ID tc) (rev (stream_toolCalls stream)) = Some tc}
          = {\<lparr>ToolCall_ID = ''t1'', Function_Name = [], Function_Arguments = ''1}''\<rparr>}"
      unfolding that by (auto simp: stream_toolCalls_def example_toolCall_stream_def)
    with s have "set (Resp_ToolCalls (last frames)) =
          {\<lparr>ToolCall_ID = ''t1'', Function_Name = [], Function_Arguments = ''1}''\<rparr>}"
      by simp
    with d show ?thesis by (rule singleton_list)
  qed
  with ty d s show ?thesis by blast
qed

theorem toolCalls_last_delta_per_id_witness:
  "Resp_ToolCalls (last (fst (processInteraction
       (example_client (Inr example_toolCall_stream) (Inl [])) (example_request True))))
   = [\<lparr>ToolCall_ID = ''t1'', Function_Name = [], Function_Arguments = ''1}''\<rparr>]"
proof -
  let ?cl = "example_client (Inr example_toolCall_stream) (Inl [])"
  let ?rq = "example_request True"
  have 1: "Req_Stream ?rq" by (simp add: example_request_def)
  have 2: "CreateChatCompletionStream ?cl = Inr example_toolCall_stream"
    by (simp add: example_client_def)
  have "snd (processInteraction ?cl ?rq) = ReturnNil"
    by (simp add: processInteraction_def example_client_def example_request_def
        recv_loop_eq example_toolCall_stream_def)
  then have 3: "processInteraction ?cl ?rq = (fst (processInteraction ?cl ?rq), ReturnNil)"
    by (metis prod.collapse)
  have 4: "\<forall>m. mset (rangeOrder ?cl m) = mset m" by (simp add: example_client_def)
  from toolCalls_last_delta_per_id [OF 1 2 3 4] show ?thesis by blast
qed

theorem toolCalls_not_merged_counterexample:
  "map Function_Name (Resp_ToolCalls (last (fst (processInteraction
       (example_client (Inr example_toolCall_stream) (Inl [])) (example_request True)))))
   = [[]]
   \<and> map Function_Arguments (Resp_ToolCalls (last (fst (processInteraction
       (example_client (Inr example_toolCall_stream) (Inl [])) (example_request True)))))
   = [''1}'']
   \<and> Resp_ToolCalls (last (fst (processInteraction
       (example_client (Inr example_toolCall_stream) (Inl [])) (example_request True))))
   \<noteq> [\<lparr>ToolCall_ID = ''t1'', Function_Name = ''f'',
         Function_Arguments =
           [CHR ''{'', CHR 0x22, CHR ''x'', CHR 0x22, CHR '':'', CHR ''1'', CHR ''}'']\<rparr>]"
  by (simp add: processInteraction_def example_client_def example_request_def
      example_toolCall_stream_def store_toolCalls_def responseProcessor_def)



section \<open>The instance: properties\<close>

text \<open>
  C8, as amended. For every model instance whose TTL is a duration below the largest
  one, \<open>Stale\<close> is true if and only if now minus last_activity exceeds the TTL, with no
  special case for the zero value of last_activity; the stale field of a \<open>GetState\<close>
  snapshot is true if and only if last_activity is not the zero value and now minus
  last_activity exceeds the TTL. The two agree for every last_activity other than the
  zero value: with TTL=5s and last_activity=now-6s both are true, with
  last_activity=now-4s both are false. With last_activity=zero the stale field of the
  snapshot is false.
\<close>

theorem stale_flags:
  assumes "minDuration \<le> InstanceTTL i" and "InstanceTTL i < maxDuration"
  shows "(Stale now i \<longleftrightarrow> now - lastActivity i > InstanceTTL i)
     \<and> (initialRequest i \<noteq> None \<longrightarrow> (\<exists>st. GetState now i = Inr st))
     \<and> (\<forall>st. GetState now i = Inr st \<longrightarrow>
           (State_Stale st \<longleftrightarrow>
              \<not> IsZero (lastActivity i) \<and> now - lastActivity i > InstanceTTL i))
     \<and> (\<forall>st. GetState now i = Inr st \<and> \<not> IsZero (lastActivity i) \<longrightarrow>
           State_Stale st = Stale now i)
     \<and> (\<forall>st. GetState now i = Inr st \<and> IsZero (lastActivity i) \<longrightarrow> \<not> State_Stale st)"
proof -
  have s: "Stale now i \<longleftrightarrow> now - lastActivity i > InstanceTTL i"
    unfolding Stale_def using assms by (rule time_Since_exceeds)
  have e: "initialRequest i \<noteq> None \<longrightarrow> (\<exists>st. GetState now i = Inr st)"
    by (auto simp: GetState_def)
  have g: "State_Stale st \<longleftrightarrow>
              \<not> IsZero (lastActivity i) \<and> now - lastActivity i > InstanceTTL i"
    if "GetState now i = Inr st" for st
    using GetState_Stale_iff [OF that] time_Since_exceeds [OF assms, of now "lastActivity i"]
    by simp
  from s e g show ?thesis by blast
qed

theorem stale_flags_witness:
  "Stale example_now (example_instance None False (example_now - 6 * Second))
   \<and> map_sum id State_Stale
        (GetState example_now (example_instance None False (example_now - 6 * Second)))
       = Inr True
   \<and> \<not> Stale example_now (example_instance None False (example_now - 4 * Second))
   \<and> map_sum id State_Stale
        (GetState example_now (example_instance None False (example_now - 4 * Second)))
       = Inr False
   \<and> map_sum id State_Stale (GetState example_now (example_instance None False 0))
       = Inr False"
proof -
  let ?i6 = "example_instance None False (example_now - 6 * Second)"
  let ?i4 = "example_instance None False (example_now - 4 * Second)"
  let ?i0 = "example_instance None False 0"
  have ttl: "minDuration \<le> InstanceTTL (example_instance None False t)"
    "InstanceTTL (example_instance None False t) < maxDuration" for t
    by (simp_all add: example_instance_def Second_def minDuration_def maxDuration_def)
  have init: "initialRequest (example_instance None False t) \<noteq> None" for t
    by (simp add: example_instance_def)
  have v6: "\<not> IsZero (lastActivity ?i6) \<and> example_now - lastActivity ?i6 > InstanceTTL ?i6"
    by (simp add: example_instance_def example_now_def Second_def IsZero_def)
  have v4: "\<not> example_now - lastActivity ?i4 > InstanceTTL ?i4"
    by (simp add: example_instance_def example_now_def Second_def)
  have v0: "IsZero (lastActivity ?i0)"
    by (simp add: example_instance_def IsZero_def)
  note t6 = stale_flags [OF ttl [of "example_now - 6 * Second"], where now = example_now]
  note t4 = stale_flags [OF ttl [of "example_now - 4 * Second"], where now = example_now]
  note t0 = stale_flags [OF ttl [of 0], where now = example_now]
  from t6 v6 have s6: "Stale example_now ?i6" by blast
  from t6 init obtain st6 where g6: "GetState example_now ?i6 = Inr st6" by blast
  with t6 v6 have "State_Stale st6" by blast
  with g6 have m6: "map_sum id State_Stale (GetState example_now ?i6) = Inr True" by simp
  from t4 v4 have s4: "\<not> Stale example_now ?i4" by blast
  from t4 init obtain st4 where g4: "GetState example_now ?i4 = Inr st4" by blast
  with t4 v4 have "\<not> State_Stale st4" by blast
  with g4 have m4: "map_sum id State_Stale (GetState example_now ?i4) = Inr False" by simp
  from t0 init obtain st0 where g0: "GetState example_now ?i0 = Inr st0" by blast
  with t0 v0 have "\<not> State_Stale st0" by blast
  with g0 have m0: "map_sum id State_Stale (GetState example_now ?i0) = Inr False" by simp
  from s6 m6 s4 m4 m0 show ?thesis by blast
qed

theorem Stale_at_zero_last_activity_counterexample:
  "IsZero (lastActivity (example_instance None False 0))
   \<and> InstanceTTL (example_instance None False 0) = 5 * Second
   \<and> Stale example_now (example_instance None False 0)"
  by (simp add: Stale_def example_instance_def example_now_def Second_def
      time_Since_def maxDuration_def minDuration_def IsZero_def)

text \<open>
  C9, as amended. \<open>Stop\<close> returns an error when no subprocess was ever started. On an
  instance with a started subprocess and an open work channel, \<open>Stop\<close> succeeds exactly
  when the tree-kill of the subprocess reports no error, and then closes the work
  channel and cancels the context; an error of the tree-kill is returned as the error
  of \<open>Stop\<close> and the instance is left as it was.
\<close>

theorem Stop_outcomes:
  "(currentCommand i = None \<longrightarrow>
      Stop killProcessTree i = (ReturnError ''no Ollama process to stop'', i))
   \<and> (\<forall>cmd. currentCommand i = Some cmd \<and> \<not> workChClosed i \<longrightarrow>
         (case killProcessTree (Pid cmd) of
            None \<Rightarrow> Stop killProcessTree i =
                      (ReturnNil, i\<lparr>workChClosed := True, ctxCancelled := True\<rparr>)
          | Some err \<Rightarrow> Stop killProcessTree i = (ReturnError err, i)))"
  by (simp add: Stop_def split: option.splits)

theorem Stop_outcomes_witness:
  "Stop kill_succeeds (example_instance None False 0)
     = (ReturnError ''no Ollama process to stop'', example_instance None False 0)
   \<and> Stop kill_succeeds (example_instance (Some \<lparr>Pid = 4242\<rparr>) False 0)
     = (ReturnNil, example_instance (Some \<lparr>Pid = 4242\<rparr>) True 0)
   \<and> Stop kill_fails (example_instance (Some \<lparr>Pid = 4242\<rparr>) False 0)
     = (ReturnError ''no such process'', example_instance (Some \<lparr>Pid = 4242\<rparr>) False 0)"
proof -
  let ?none = "example_instance None False 0"
  let ?run = "example_instance (Some \<lparr>Pid = 4242\<rparr>) False 0"
  have n: "currentCommand ?none = None" by (simp add: example_instance_def)
  have r: "currentCommand ?run = Some \<lparr>Pid = 4242\<rparr> \<and> \<not> workChClosed ?run"
    by (simp add: example_instance_def)
  have u: "?run\<lparr>workChClosed := True, ctxCancelled := True\<rparr>
             = example_instance (Some \<lparr>Pid = 4242\<rparr>) True 0"
    by (simp add: example_instance_def)
  from Stop_outcomes [of ?none kill_succeeds] n
  have 1: "Stop kill_succeeds ?none = (ReturnError ''no Ollama process to stop'', ?none)"
    by blast
  from Stop_outcomes [of ?run kill_succeeds] r
  have "case kill_succeeds (Pid \<lparr>Pid = 4242\<rparr>) of
            None \<Rightarrow> Stop kill_succeeds ?run =
                      (ReturnNil, ?run\<lparr>workChClosed := True, ctxCancelled := True\<rparr>)
          | Some err \<Rightarrow> Stop kill_succeeds ?run = (ReturnError err, ?run)"
    by blast
  then have 2: "Stop kill_succeeds ?run =
      (ReturnNil, example_instance (Some \<lparr>Pid = 4242\<rparr>) True 0)"
    by (simp add: kill_succeeds_def u)
  from Stop_outcomes [of ?run kill_fails] r
  have "case kill_fails (Pid \<lparr>Pid = 4242\<rparr>) of
            None \<Rightarrow> Stop kill_fails ?run =
                      (ReturnNil, ?run\<lparr>workChClosed := True, ctxCancelled := True\<rparr>)
          | Some err \<Rightarrow> Stop kill_fails ?run = (ReturnError err, ?run)"
    by blast
  then have 3: "Stop kill_fails ?run = (ReturnError ''no such process'', ?run)"
    by (simp add: kill_fails_def)
  from 1 2 3 show ?thesis by blast
qed

theorem Stop_repeated_counterexample:
  "Stop kill_succeeds (example_instance (Some \<lparr>Pid = 4242\<rparr>) False 0)
     = (ReturnNil, example_instance (Some \<lparr>Pid = 4242\<rparr>) True 0)
   \<and> Stop kill_succeeds (example_instance (Some \<lparr>Pid = 4242\<rparr>) True 0)
     = (Panics, example_instance (Some \<lparr>Pid = 4242\<rparr>) True 0)
   \<and> Stop kill_fails (example_instance (Some \<lparr>Pid = 4242\<rparr>) True 0)
     = (ReturnError ''no such process'', example_instance (Some \<lparr>Pid = 4242\<rparr>) True 0)"
  by (simp add: Stop_def example_instance_def kill_succeeds_def kill_fails_def)

end
